theory Spec2Isabelle
  imports Main "HOL-Library.Multiset"
begin

section \<open>Strings\<close>

text \<open>
  Go strings are byte sequences; they are modelled as \<open>string\<close> (a list of bytes).
  \<open>strings.ToLower\<close> maps every upper-case letter to its lower-case letter. On ASCII
  text (all Kubernetes resource names, kinds, groups and versions) that is the map below;
  bytes outside \<open>A..Z\<close> are left as they are.
\<close>

definition toLower_byte :: "char \<Rightarrow> char" where
  "toLower_byte c =
     (case map_of (zip ''ABCDEFGHIJKLMNOPQRSTUVWXYZ'' ''abcdefghijklmnopqrstuvwxyz'') c of
        None \<Rightarrow> c
      | Some l \<Rightarrow> l)"

definition strings_ToLower :: "string \<Rightarrow> string" where
  "strings_ToLower s = map toLower_byte s"

text \<open>\<open>strings.Join(elems, sep)\<close>: the elements with \<open>sep\<close> between neighbours.\<close>

fun strings_Join :: "string list \<Rightarrow> string \<Rightarrow> string" where
  "strings_Join [] sep = []"
| "strings_Join [x] sep = x"
| "strings_Join (x # y # zs) sep = x @ sep @ strings_Join (y # zs) sep"

text \<open>\<open>contains\<close> (main.go, lines 263-270): linear search for a string.\<close>

fun contains :: "string list \<Rightarrow> string \<Rightarrow> bool" where
  "contains [] s = False"
| "contains (vv # v) s = (if vv = s then True else contains v s)"

section \<open>The data model\<close>

text \<open>
  The fields of \<open>metav1.APIResource\<close>, \<open>schema.GroupVersion\<close> and
  \<open>schema.GroupVersionResource\<close> that the program reads, and the program's own
  \<open>apiResource\<close> (fields \<open>r\<close> and \<open>gv\<close>) and \<open>resourceMap\<close> (fields \<open>list\<close> and
  \<open>m\<close>).
\<close>

record APIResource =
  Name :: string
  SingularName :: string
  Namespaced :: bool
  Kind :: string
  Verbs :: "string list"
  ShortNames :: "string list"

record GroupVersion =
  Group :: string
  Version :: string

record GroupVersionResource =
  gvr_Group :: string
  gvr_Version :: string
  gvr_Resource :: string

record apiResource =
  api_r :: APIResource
  api_gv :: GroupVersion

text \<open>The zero value \<open>apiResource{}\<close>.\<close>

definition zero_apiResource :: apiResource where
  "zero_apiResource =
     \<lparr>api_r = \<lparr>Name = [], SingularName = [], Namespaced = False, Kind = [],
                Verbs = [], ShortNames = []\<rparr>,
      api_gv = \<lparr>Group = [], Version = []\<rparr>\<rparr>"

definition GroupVersionResourceOf :: "apiResource \<Rightarrow> GroupVersionResource" where
  "GroupVersionResourceOf a =
     \<lparr>gvr_Group = Group (api_gv a), gvr_Version = Version (api_gv a),
      gvr_Resource = Name (api_r a)\<rparr>"

type_synonym resourceNameLookup = "string \<rightharpoonup> apiResource list"

record resourceMap =
  rm_list :: "apiResource list"
  rm_m :: resourceNameLookup

text \<open>
  Reading a Go map at a key it does not hold gives the zero value, here the nil slice,
  which has length 0.
\<close>

definition index_at :: "resourceNameLookup \<Rightarrow> string \<Rightarrow> apiResource list" where
  "index_at m k = (case m k of None \<Rightarrow> [] | Some l \<Rightarrow> l)"

definition lookup :: "resourceMap \<Rightarrow> string \<Rightarrow> apiResource list" where
  "lookup rm s = index_at (rm_m rm) (strings_ToLower s)"

definition resources :: "resourceMap \<Rightarrow> apiResource list" where
  "resources rm = rm_list rm"

definition fullAPIName :: "apiResource \<Rightarrow> string" where
  "fullAPIName a =
     (let sgv = GroupVersionResourceOf a in
      strings_Join [gvr_Resource sgv, gvr_Version sgv, gvr_Group sgv] ''.'')"

section \<open>The resource catalog\<close>

text \<open>
  \<open>apiNames\<close> (lines 273-292). \<open>singularName\<close> is the declared singular name, or the
  lower-cased kind when that is empty; every base name gives three keys.
\<close>

definition singularName :: "APIResource \<Rightarrow> string" where
  "singularName a = (if SingularName a = [] then strings_ToLower (Kind a) else SingularName a)"

definition baseNames :: "APIResource \<Rightarrow> string list" where
  "baseNames a = [singularName a, Name a] @ ShortNames a"

definition nameForms :: "GroupVersion \<Rightarrow> string \<Rightarrow> string list" where
  "nameForms gv n =
     [n, strings_Join [n, Group gv] ''.'', strings_Join [n, Version gv, Group gv] ''.'']"

definition apiNames :: "APIResource \<Rightarrow> GroupVersion \<Rightarrow> string list" where
  "apiNames a gv = foldl (\<lambda>out n. out @ nameForms gv n) [] (baseNames a)"

datatype error =
    TransportError string
  | FetchGroupsFailed error
  | GroupVersionUnparsable string error
  | KindNotFound string
  | AmbiguousKind string string
  | GetFailed string string error
  | QueryFailed error
  | ListingFailed GroupVersionResource error

text \<open>
  The body of the inner loop of \<open>findAPIs\<close> (lines 245-258): a descriptor without the
  \<open>list\<close> verb is skipped; otherwise the resource is appended to the slice stored under
  each of its names, in the order of \<open>apiNames\<close>, and to the full list.
\<close>

definition register :: "apiResource \<Rightarrow> resourceNameLookup \<Rightarrow> string \<Rightarrow> resourceNameLookup" where
  "register v m name = m(name \<mapsto> index_at m name @ [v])"

definition addResource :: "GroupVersion \<Rightarrow> resourceMap \<Rightarrow> APIResource \<Rightarrow> resourceMap" where
  "addResource gv rm apiRes =
     (if \<not> contains (Verbs apiRes) ''list'' then rm
      else
        (let v = \<lparr>api_r = apiRes, api_gv = gv\<rparr>;
             names = apiNames apiRes gv
         in \<lparr>rm_list = rm_list rm @ [v], rm_m = foldl (register v) (rm_m rm) names\<rparr>))"

record APIResourceList =
  GroupVersionString :: string
  APIResources :: "APIResource list"

text \<open>
  The outer loop of \<open>findAPIs\<close>. \<open>schema.ParseGroupVersion\<close> belongs to the Kubernetes
  library; it is the parameter \<open>parse\<close>, so that every result below holds for each parser.
\<close>

fun findAPIs_groups ::
  "(string \<Rightarrow> error + GroupVersion) \<Rightarrow> resourceMap \<Rightarrow> APIResourceList list \<Rightarrow> error + resourceMap"
where
  "findAPIs_groups parse rm [] = Inr rm"
| "findAPIs_groups parse rm (grp # rest) =
     (case parse (GroupVersionString grp) of
        Inl err \<Rightarrow> Inl (GroupVersionUnparsable (GroupVersionString grp) err)
      | Inr gv \<Rightarrow> findAPIs_groups parse (foldl (addResource gv) rm (APIResources grp)) rest)"

text \<open>
  \<open>findAPIs\<close> (lines 230-261). The discovery client's \<open>ServerPreferredResources\<close> is
  its answer: an error or the list of groups.
\<close>

definition findAPIs ::
  "(string \<Rightarrow> error + GroupVersion) \<Rightarrow> error + APIResourceList list \<Rightarrow> error + resourceMap"
where
  "findAPIs parse ServerPreferredResources =
     (case ServerPreferredResources of
        Inl err \<Rightarrow> Inl (FetchGroupsFailed err)
      | Inr resList \<Rightarrow> findAPIs_groups parse \<lparr>rm_list = [], rm_m = Map.empty\<rparr> resList)"

text \<open>
  The library's \<open>ParseGroupVersion\<close> as its documentation gives it: the empty string and
  \<open>/\<close> are the empty group and version, a string without \<open>/\<close> is a version of the core
  group, one \<open>/\<close> separates group and version, more are an error. It only serves as the
  concrete parser of the examples.
\<close>

definition ParseGroupVersion :: "string \<Rightarrow> error + GroupVersion" where
  "ParseGroupVersion s =
     (if s = [] \<or> s = ''/'' then Inr \<lparr>Group = [], Version = []\<rparr>
      else if count_list s CHR ''/'' = 0 then Inr \<lparr>Group = [], Version = s\<rparr>
      else if count_list s CHR ''/'' = 1 then
        Inr \<lparr>Group = takeWhile (\<lambda>c. c \<noteq> CHR ''/'') s,
             Version = tl (dropWhile (\<lambda>c. c \<noteq> CHR ''/'') s)\<rparr>
      else Inl (TransportError (''unexpected GroupVersion string: '' @ s)))"

section \<open>The kind resolver\<close>

text \<open>\<open>overrideType\<close> (lines 97-118). A Go \<open>switch\<close> case does not fall through.\<close>

definition overrideType :: "string \<Rightarrow> resourceMap \<Rightarrow> apiResource \<times> bool" where
  "overrideType kind0 v =
     (let kind = strings_ToLower kind0 in
      if kind = ''svc'' \<or> kind = ''service'' \<or> kind = ''services'' then
        (let out = lookup v ''service.v1.'' in
         if length out \<noteq> 0 then (out ! 0, True) else (zero_apiResource, False))
      else if kind = ''deploy'' \<or> kind = ''deployment'' \<or> kind = ''deployments'' then
        (let out = lookup v ''deployment.v1.apps'' in
         if length out \<noteq> 0 then (out ! 0, True)
         else
           (let out = lookup v ''deployment.v1beta1.extensions'' in
            if length out \<noteq> 0 then (out ! 0, True) else (zero_apiResource, False)))
      else (zero_apiResource, False))"

text \<open>
  The resolver of \<open>run\<close> (lines 53-69): the override first, then the index, with the two
  errors \<open>could not find api kind\<close> and \<open>ambiguous kind\<close>; the latter carries the
  candidates' full names joined by a comma and a space.
\<close>

definition resolveKind :: "string \<Rightarrow> resourceMap \<Rightarrow> error + apiResource" where
  "resolveKind kind apis =
     (case overrideType kind apis of
        (k, True) \<Rightarrow> Inr k
      | (k, False) \<Rightarrow>
          (let apiResults = lookup apis kind in
           if length apiResults = 0 then Inl (KindNotFound kind)
           else if length apiResults > 1 then
             Inl (AmbiguousKind kind (strings_Join (map fullAPIName apiResults) '', ''))
           else Inr (apiResults ! 0)))"

section \<open>The ownership directory\<close>

type_synonym UID = string

record OwnerReference =
  ref_Kind :: string
  ref_Name :: string
  ref_UID :: UID

text \<open>
  An \<open>unstructured.Unstructured\<close> object, as far as the program reads it: \<open>GetUID\<close>,
  \<open>GetOwnerReferences\<close> (and its name).
\<close>

record Unstructured =
  GetName :: string
  GetUID :: UID
  GetOwnerReferences :: "OwnerReference list"

record objectDirectory =
  items :: "UID \<rightharpoonup> Unstructured"
  ownership :: "UID \<rightharpoonup> (UID \<rightharpoonup> bool)"

text \<open>
  The body of the inner loop of \<open>newObjectDirectory\<close> (lines 134-139): the owner's
  children map is made on first use, then the object's UID is set in it.
\<close>

definition addOwner ::
  "Unstructured \<Rightarrow> (UID \<rightharpoonup> (UID \<rightharpoonup> bool)) \<Rightarrow> OwnerReference \<Rightarrow> (UID \<rightharpoonup> (UID \<rightharpoonup> bool))"
where
  "addOwner obj own ownerRef =
     (let own1 = (if own (ref_UID ownerRef) = None then own(ref_UID ownerRef \<mapsto> Map.empty)
                  else own)
      in case own1 (ref_UID ownerRef) of
           None \<Rightarrow> own1
         | Some cs \<Rightarrow> own1(ref_UID ownerRef \<mapsto> cs(GetUID obj \<mapsto> True)))"

definition addObject :: "objectDirectory \<Rightarrow> Unstructured \<Rightarrow> objectDirectory" where
  "addObject v obj =
     \<lparr>items = (items v)(GetUID obj \<mapsto> obj),
      ownership = foldl (addOwner obj) (ownership v) (GetOwnerReferences obj)\<rparr>"

definition newObjectDirectory :: "Unstructured list \<Rightarrow> objectDirectory" where
  "newObjectDirectory objs = foldl addObject \<lparr>items = Map.empty, ownership = Map.empty\<rparr> objs"

text \<open>
  The set \<open>ownership[x]\<close>: the keys of the children map of \<open>x\<close>, empty when \<open>x\<close> is not
  a key (reading a nil map). \<open>run\<close> tests its \<open>len\<close> against 0.
\<close>

definition childrenOf :: "objectDirectory \<Rightarrow> UID \<Rightarrow> UID set" where
  "childrenOf v x = (case ownership v x of None \<Rightarrow> {} | Some cs \<Rightarrow> dom cs)"

section \<open>The object fetcher\<close>

text \<open>
  The dynamic client, as far as the program calls it: \<open>List\<close> and \<open>Get\<close> of a resource
  in a namespace (the empty namespace is the cluster scope). The cluster is read as a
  function of the request.
\<close>

record ListOptions =
  Limit :: int
  Continue :: string

record UnstructuredList =
  Items :: "Unstructured list"
  GetContinue :: string

record Interface =
  List :: "GroupVersionResource \<Rightarrow> string \<Rightarrow> ListOptions \<Rightarrow> error + UnstructuredList"
  Get :: "GroupVersionResource \<Rightarrow> string \<Rightarrow> string \<Rightarrow> error + Unstructured"

text \<open>
  \<open>queryAPI\<close> (lines 173-197). A Go result \<open>(value, error)\<close> is the pair of the slice and
  the optional error; the nil slice is the empty list. The loop has no bound of its own:
  on a server that never returns the empty cursor it does not return, which is the value
  \<open>None\<close>.
\<close>

partial_function (option) queryAPI_loop ::
  "Interface \<Rightarrow> apiResource \<Rightarrow> string \<Rightarrow> Unstructured list \<Rightarrow> string \<Rightarrow>
     (Unstructured list \<times> error option) option"
where
  "queryAPI_loop client api ns out next =
     (case List client (GroupVersionResourceOf api) ns \<lparr>Limit = 250, Continue = next\<rparr> of
        Inl err \<Rightarrow> Some ([], Some (ListingFailed (GroupVersionResourceOf api) err))
      | Inr resp \<Rightarrow>
          (let out' = out @ Items resp; next' = GetContinue resp in
           if next' = [] then Some (out', None)
           else queryAPI_loop client api ns out' next'))"

definition queryAPI ::
  "Interface \<Rightarrow> apiResource \<Rightarrow> string \<Rightarrow> (Unstructured list \<times> error option) option"
where
  "queryAPI client api ns = queryAPI_loop client api ns [] []"

section \<open>The fleet fetcher\<close>

text \<open>
  \<open>getAllResources\<close> (lines 145-171) starts one goroutine for each namespaced resource
  type and waits for all of them. A goroutine touches the shared state once, when its
  \<open>queryAPI\<close> has returned: it either sets \<open>errResult\<close> or appends its objects to
  \<open>out\<close> under the mutex. An execution is therefore given by the order in which the
  goroutines get there: \<open>sched\<close> lists the positions of the started goroutines in that
  order. The write of \<open>errResult\<close> has no lock in the source; it is taken as one step
  like the append. When a goroutine never returns, neither does \<open>wg.Wait\<close>.
\<close>

definition dispatched :: "apiResource list \<Rightarrow> apiResource list" where
  "dispatched apis = filter (\<lambda>api. Namespaced (api_r api)) apis"

definition goroutine ::
  "Interface \<Rightarrow> string \<Rightarrow> (Unstructured list \<times> error option) option \<Rightarrow> apiResource \<Rightarrow>
     (Unstructured list \<times> error option) option"
where
  "goroutine client ns st a =
     (case st of
        None \<Rightarrow> None
      | Some (out, errResult) \<Rightarrow>
          (case queryAPI client a ns of
             None \<Rightarrow> None
           | Some (v, Some err) \<Rightarrow> Some (out, Some err)
           | Some (v, None) \<Rightarrow> Some (out @ v, errResult)))"

definition getAllResources ::
  "Interface \<Rightarrow> apiResource list \<Rightarrow> string \<Rightarrow> nat list \<Rightarrow>
     (Unstructured list \<times> error option) option"
where
  "getAllResources client apis ns sched =
     foldl (goroutine client ns) (Some ([], None)) (map (\<lambda>i. dispatched apis ! i) sched)"


section \<open>The run\<close>

text \<open>
  \<open>run\<close> (lines 22-94) from the call of \<open>findAPIs\<close> on; the loading of the client
  configuration before it is left out. What \<open>run\<close> prints is the list of printed
  values, what it returns is the optional error.
\<close>

datatype printed = Line string | Dump objectDirectory

definition run ::
  "(string \<Rightarrow> error + GroupVersion) \<Rightarrow> error + APIResourceList list \<Rightarrow> Interface \<Rightarrow> nat list \<Rightarrow>
     string \<Rightarrow> string \<Rightarrow> string \<Rightarrow> (printed list \<times> error option) option"
where
  "run parse ServerPreferredResources dyn sched kind name ns =
     (case findAPIs parse ServerPreferredResources of
        Inl err \<Rightarrow> Some ([], Some err)
      | Inr apis \<Rightarrow>
          (case resolveKind kind apis of
             Inl err \<Rightarrow> Some ([], Some err)
           | Inr api \<Rightarrow>
               (case Get dyn (GroupVersionResourceOf api)
                       (if Namespaced (api_r api) then ns else []) name of
                  Inl err \<Rightarrow> Some ([], Some (GetFailed kind name err))
                | Inr obj \<Rightarrow>
                    (case getAllResources dyn (resources apis) ns sched of
                       None \<Rightarrow> None
                     | Some (apiObjects, Some err) \<Rightarrow> Some ([], Some (QueryFailed err))
                     | Some (apiObjects, None) \<Rightarrow>
                         (let objs = newObjectDirectory apiObjects in
                          if childrenOf objs (GetUID obj) = {} then
                            Some ([Line ''No resources are owned by this object through ownerReferences.''],
                                  None)
                          else Some ([Dump objs], None))))))"

section \<open>Specification vocabulary\<close>

text \<open>
  The names under which a catalog entry is registered, and what the index must hold under
  a key given the catalog's list: each entry of the list, in order, once for each time
  the key stands among its names.
\<close>

definition aliases :: "apiResource \<Rightarrow> string list" where
  "aliases v = apiNames (api_r v) (api_gv v)"

definition entries :: "apiResource list \<Rightarrow> string \<Rightarrow> apiResource list" where
  "entries vs k = concat (map (\<lambda>v. replicate (count_list (aliases v) k) v) vs)"

text \<open>
  The resources of a discovery answer in its order: for each group, each descriptor with
  the \<open>list\<close> verb, together with the parsed group and version.
\<close>

definition listed ::
  "(string \<Rightarrow> error + GroupVersion) \<Rightarrow> APIResourceList list \<Rightarrow> apiResource list"
where
  "listed parse resList =
     concat (map (\<lambda>grp.
        case parse (GroupVersionString grp) of
          Inl err \<Rightarrow> []
        | Inr gv \<Rightarrow> map (\<lambda>a. \<lparr>api_r = a, api_gv = gv\<rparr>)
                      (filter (\<lambda>a. contains (Verbs a) ''list'') (APIResources grp))) resList)"

text \<open>The invariant of the catalog while it is built: the index agrees with the list.\<close>

definition indexed :: "resourceMap \<Rightarrow> bool" where
  "indexed rm = (\<forall>k. index_at (rm_m rm) k = entries (rm_list rm) k)"


text \<open>
  What a server answers to the requests of one \<open>queryAPI\<close>. \<open>pages_from\<close>: starting with
  the cursor \<open>next\<close>, the requests with limit 250 are answered by the pages \<open>ps\<close> in
  turn, each request carrying the cursor of the page before it, and the last page, and
  only the last, has the empty cursor. \<open>fails_after\<close>: the pages \<open>ps\<close> are answered in
  the same way, none with the empty cursor, and the request after them fails with
  \<open>err\<close>.
\<close>

fun pages_from ::
  "Interface \<Rightarrow> GroupVersionResource \<Rightarrow> string \<Rightarrow> string \<Rightarrow> UnstructuredList list \<Rightarrow> bool"
where
  "pages_from client g ns next [] = False"
| "pages_from client g ns next [p] =
     (List client g ns \<lparr>Limit = 250, Continue = next\<rparr> = Inr p \<and> GetContinue p = [])"
| "pages_from client g ns next (p # q # ps) =
     (List client g ns \<lparr>Limit = 250, Continue = next\<rparr> = Inr p \<and> GetContinue p \<noteq> [] \<and>
      pages_from client g ns (GetContinue p) (q # ps))"

fun fails_after ::
  "Interface \<Rightarrow> GroupVersionResource \<Rightarrow> string \<Rightarrow> string \<Rightarrow> UnstructuredList list \<Rightarrow> error \<Rightarrow> bool"
where
  "fails_after client g ns next [] err =
     (List client g ns \<lparr>Limit = 250, Continue = next\<rparr> = Inl err)"
| "fails_after client g ns next (p # ps) err =
     (List client g ns \<lparr>Limit = 250, Continue = next\<rparr> = Inr p \<and> GetContinue p \<noteq> [] \<and>
      fails_after client g ns (GetContinue p) ps err)"

section \<open>Example inputs\<close>

text \<open>
  The four objects of the ownership example: \<open>A\<close> has no owner, \<open>B\<close> and \<open>C\<close> are
  owned by \<open>A\<close>, and \<open>D\<close> by \<open>B\<close>.
\<close>

definition ownedBy :: "string \<Rightarrow> UID \<Rightarrow> UID list \<Rightarrow> Unstructured" where
  "ownedBy name uid owners =
     \<lparr>GetName = name, GetUID = uid,
      GetOwnerReferences = map (\<lambda>u. \<lparr>ref_Kind = ''Workload'', ref_Name = u, ref_UID = u\<rparr>) owners\<rparr>"

definition objA :: Unstructured where "objA = ownedBy ''a'' ''A'' []"
definition objB :: Unstructured where "objB = ownedBy ''b'' ''B'' [''A'']"
definition objC :: Unstructured where "objC = ownedBy ''c'' ''C'' [''A'']"
definition objD :: Unstructured where "objD = ownedBy ''d'' ''D'' [''B'']"

text \<open>
  A discovery answer with the core group (services, and bindings, which cannot be
  listed, and the cluster-scoped namespaces), the apps group (deployments, whose singular
  name is empty), a second group that has a Service of its own, and a group with
  workloads.
\<close>

definition descriptor ::
  "string \<Rightarrow> string \<Rightarrow> string \<Rightarrow> bool \<Rightarrow> string list \<Rightarrow> string list \<Rightarrow> APIResource" where
  "descriptor plural singular kind namespaced shorts verbs =
     \<lparr>Name = plural, SingularName = singular, Namespaced = namespaced, Kind = kind,
      Verbs = verbs, ShortNames = shorts\<rparr>"

definition servicesRes :: APIResource where
  "servicesRes = descriptor ''services'' ''service'' ''Service'' True [''svc''] [''get'', ''list'']"

definition bindingsRes :: APIResource where
  "bindingsRes = descriptor ''bindings'' ''binding'' ''Binding'' True [] [''create'']"

definition namespacesRes :: APIResource where
  "namespacesRes = descriptor ''namespaces'' ''namespace'' ''Namespace'' False [''ns''] [''get'', ''list'']"

definition deploymentsRes :: APIResource where
  "deploymentsRes = descriptor ''deployments'' [] ''Deployment'' True [''deploy''] [''list'']"

definition kservicesRes :: APIResource where
  "kservicesRes = descriptor ''services'' ''service'' ''Service'' True [''ksvc''] [''list'']"

definition workloadsRes :: APIResource where
  "workloadsRes = descriptor ''workloads'' ''workload'' ''Workload'' True [] [''list'', ''get'']"

definition coreV1 :: GroupVersion where
  "coreV1 = \<lparr>Group = [], Version = ''v1''\<rparr>"

definition coreService :: apiResource where
  "coreService = \<lparr>api_r = servicesRes, api_gv = coreV1\<rparr>"

definition coreGroup :: APIResourceList where
  "coreGroup = \<lparr>GroupVersionString = ''v1'',
                APIResources = [servicesRes, bindingsRes, namespacesRes]\<rparr>"

definition appsGroup :: APIResourceList where
  "appsGroup = \<lparr>GroupVersionString = ''apps/v1'', APIResources = [deploymentsRes]\<rparr>"

definition knativeGroup :: APIResourceList where
  "knativeGroup = \<lparr>GroupVersionString = ''serving.knative.dev/v1'',
                   APIResources = [kservicesRes]\<rparr>"

definition cartoGroup :: APIResourceList where
  "cartoGroup = \<lparr>GroupVersionString = ''carto.run/v1alpha1'', APIResources = [workloadsRes]\<rparr>"

definition exampleGroup :: APIResourceList where
  "exampleGroup = \<lparr>GroupVersionString = ''example.dev/v1'', APIResources = [workloadsRes]\<rparr>"

definition demoDiscovery :: "APIResourceList list" where
  "demoDiscovery = [knativeGroup, coreGroup, appsGroup, cartoGroup, exampleGroup]"

definition knativeService :: apiResource where
  "knativeService =
     \<lparr>api_r = kservicesRes, api_gv = \<lparr>Group = ''serving.knative.dev'', Version = ''v1''\<rparr>\<rparr>"

definition appsDeployment :: apiResource where
  "appsDeployment = \<lparr>api_r = deploymentsRes, api_gv = \<lparr>Group = ''apps'', Version = ''v1''\<rparr>\<rparr>"

definition cartoWorkload :: apiResource where
  "cartoWorkload =
     \<lparr>api_r = workloadsRes, api_gv = \<lparr>Group = ''carto.run'', Version = ''v1alpha1''\<rparr>\<rparr>"

definition exampleWorkload :: apiResource where
  "exampleWorkload =
     \<lparr>api_r = workloadsRes, api_gv = \<lparr>Group = ''example.dev'', Version = ''v1''\<rparr>\<rparr>"

definition coreNamespace :: apiResource where
  "coreNamespace = \<lparr>api_r = namespacesRes, api_gv = \<lparr>Group = [], Version = ''v1''\<rparr>\<rparr>"




text \<open>A discovery answer whose only resource has a name with an upper-case letter.\<close>

definition widgetsRes :: APIResource where
  "widgetsRes = descriptor ''Widgets'' ''widget'' ''Widget'' True [] [''list'']"

definition widgetDiscovery :: "APIResourceList list" where
  "widgetDiscovery = [\<lparr>GroupVersionString = ''example.com/v1'', APIResources = [widgetsRes]\<rparr>]"

definition widgetResource :: apiResource where
  "widgetResource = \<lparr>api_r = widgetsRes, api_gv = \<lparr>Group = ''example.com'', Version = ''v1''\<rparr>\<rparr>"

definition widgetCatalog :: resourceMap where
  "widgetCatalog =
     (case findAPIs ParseGroupVersion (Inr widgetDiscovery) of
        Inr rm \<Rightarrow> rm
      | Inl err \<Rightarrow> \<lparr>rm_list = [], rm_m = Map.empty\<rparr>)"

text \<open>
  A server that answers from a table of cursors, and a cluster for the run of the
  workload \<open>petc\<close>: the workloads come in three pages, the deployments in one, and the
  services are listed or not, as \<open>servicesUp\<close> says. \<open>dependents\<close> are the owners named by
  the one deployment.
\<close>

definition serve :: "(string \<times> (error + UnstructuredList)) list \<Rightarrow> ListOptions \<Rightarrow> error + UnstructuredList" where
  "serve table opts =
     (if Limit opts \<noteq> 250 then Inl (TransportError ''unexpected limit'')
      else case map_of table (Continue opts) of
             None \<Rightarrow> Inl (TransportError ''continue token expired'')
           | Some answer \<Rightarrow> answer)"

definition page :: "Unstructured list \<Rightarrow> string \<Rightarrow> error + UnstructuredList" where
  "page objs cursor = Inr \<lparr>Items = objs, GetContinue = cursor\<rparr>"

definition petc :: Unstructured where "petc = ownedBy ''petc'' ''uid-petc'' []"

definition petcDeploy :: "UID list \<Rightarrow> Unstructured" where
  "petcDeploy owners = ownedBy ''petc-server'' ''uid-deploy'' owners"

definition workloadPages :: "(string \<times> (error + UnstructuredList)) list" where
  "workloadPages =
     [([], page [petc, objA] ''C1''), (''C1'', page [objB] ''C2''), (''C2'', page [objC, objD] [])]"

definition cluster :: "bool \<Rightarrow> UID list \<Rightarrow> Interface" where
  "cluster servicesUp dependents =
     \<lparr>List = (\<lambda>g ns opts.
        if ns \<noteq> ''ns1'' then Inl (TransportError ''forbidden'')
        else if gvr_Resource g = ''workloads'' then serve workloadPages opts
        else if gvr_Resource g = ''deployments'' then serve [([], page [petcDeploy dependents] [])] opts
        else if gvr_Resource g = ''services'' \<and> servicesUp then serve [([], page [] [])] opts
        else Inl (TransportError ''connection refused'')),
      Get = (\<lambda>g ns name.
        if gvr_Resource g = ''workloads'' \<and> ns = ''ns1'' \<and> name = ''petc'' then Inr petc
        else Inl (TransportError ''not found''))\<rparr>"

definition petcDiscovery :: "APIResourceList list" where
  "petcDiscovery = [coreGroup, appsGroup, cartoGroup]"

text \<open>A server whose second page is gone: the first cursor is not known any more.\<close>

definition expiringServer :: Interface where
  "expiringServer =
     \<lparr>List = (\<lambda>g ns opts. serve [([], page [objA, objB] ''C1'')] opts),
      Get = (\<lambda>g ns name. Inl (TransportError ''not found''))\<rparr>"

text \<open>The resources of the catalog of \<open>petcDiscovery\<close>, and what the cluster lists for each.\<close>

definition petcApis :: "apiResource list" where
  "petcApis = [coreService, coreNamespace, appsDeployment, cartoWorkload]"


section \<open>The ownership directory is the reverse of the owner references\<close>

lemma children_addOwner:
  "(case addOwner obj own ownerRef x of None \<Rightarrow> {} | Some cs \<Rightarrow> dom cs) =
     (case own x of None \<Rightarrow> {} | Some cs \<Rightarrow> dom cs) \<union>
     (if x = ref_UID ownerRef then {GetUID obj} else {})"
  by (auto simp: addOwner_def Let_def split: option.splits if_splits)

lemma children_foldl_addOwner:
  "(case foldl (addOwner obj) own refs x of None \<Rightarrow> {} | Some cs \<Rightarrow> dom cs) =
     (case own x of None \<Rightarrow> {} | Some cs \<Rightarrow> dom cs) \<union>
     (if x \<in> ref_UID ` set refs then {GetUID obj} else {})"
proof (induction refs arbitrary: own)
  case Nil
  show ?case by simp
next
  case (Cons ownerRef refs)
  show ?case
    unfolding foldl_Cons Cons.IH children_addOwner by auto
qed

lemma childrenOf_addObject:
  "childrenOf (addObject v obj) x =
     childrenOf v x \<union>
     (if x \<in> ref_UID ` set (GetOwnerReferences obj) then {GetUID obj} else {})"
  using children_foldl_addOwner [of obj "ownership v" "GetOwnerReferences obj" x]
  by (simp add: childrenOf_def addObject_def)

lemma childrenOf_foldl_addObject:
  "childrenOf (foldl addObject v objs) x =
     childrenOf v x \<union>
     {GetUID obj |obj. obj \<in> set objs \<and> x \<in> ref_UID ` set (GetOwnerReferences obj)}"
proof (induction objs arbitrary: v)
  case Nil
  show ?case by simp
next
  case (Cons obj objs)
  show ?case
    unfolding foldl_Cons Cons.IH childrenOf_addObject by auto
qed

lemma childrenOf_newObjectDirectory:
  "childrenOf (newObjectDirectory objs) x =
     {GetUID obj |obj. obj \<in> set objs \<and> x \<in> ref_UID ` set (GetOwnerReferences obj)}"
  by (simp add: newObjectDirectory_def childrenOf_foldl_addObject) (simp add: childrenOf_def)

text \<open>
  C1. For every list of objects and every identity \<open>x\<close>, the children set of \<open>x\<close> in the
  directory built by \<open>newObjectDirectory\<close> is exactly the set of UIDs of the objects of
  the list that name \<open>x\<close> among their owner references (so it is empty when none does),
  and every permutation of the list gives the same children set.
\<close>

theorem newObjectDirectory_children:
  "childrenOf (newObjectDirectory objs) x =
     {GetUID obj |obj. obj \<in> set objs \<and> x \<in> ref_UID ` set (GetOwnerReferences obj)}
   \<and> (\<forall>objs'. mset objs' = mset objs \<longrightarrow>
          childrenOf (newObjectDirectory objs') x = childrenOf (newObjectDirectory objs) x)"
proof (intro conjI allI impI)
  show "childrenOf (newObjectDirectory objs) x =
     {GetUID obj |obj. obj \<in> set objs \<and> x \<in> ref_UID ` set (GetOwnerReferences obj)}"
    by (rule childrenOf_newObjectDirectory)
next
  fix objs' :: "Unstructured list"
  assume "mset objs' = mset objs"
  then have "set objs' = set objs"
    by (rule mset_eq_setD)
  then show "childrenOf (newObjectDirectory objs') x = childrenOf (newObjectDirectory objs) x"
    by (simp add: childrenOf_newObjectDirectory)
qed

theorem newObjectDirectory_children_witness:
  "childrenOf (newObjectDirectory [objD, objC, objB, objA]) ''A'' = {''B'', ''C''}
   \<and> childrenOf (newObjectDirectory [objA, objB, objC, objD]) ''A'' =
       childrenOf (newObjectDirectory [objD, objC, objB, objA]) ''A''"
proof -
  have perm: "mset [objA, objB, objC, objD] = mset [objD, objC, objB, objA]"
    by (simp add: ac_simps)
  have "childrenOf (newObjectDirectory [objD, objC, objB, objA]) ''A'' = {''B'', ''C''}"
    by (auto simp: newObjectDirectory_def addObject_def addOwner_def childrenOf_def
        objA_def objB_def objC_def objD_def ownedBy_def)
  with newObjectDirectory_children [of "[objD, objC, objB, objA]" "''A''"] perm
  show ?thesis by simp
qed

section \<open>The catalog: what the index holds\<close>

lemma contains_iff: "contains v s \<longleftrightarrow> s \<in> set v"
  by (induction v) auto

lemma foldl_append_concat: "foldl (\<lambda>out n. out @ f n) acc xs = acc @ concat (map f xs)"
  by (induction xs arbitrary: acc) auto

lemma apiNames_concat: "apiNames a gv = concat (map (nameForms gv) (baseNames a))"
  by (simp add: apiNames_def foldl_append_concat)

lemma index_at_register:
  "index_at (register v m name) k = index_at m k @ (if k = name then [v] else [])"
  by (simp add: register_def index_at_def)

lemma index_at_foldl_register:
  "index_at (foldl (register v) m names) k = index_at m k @ replicate (count_list names k) v"
proof (induction names arbitrary: m)
  case Nil
  show ?case by simp
next
  case (Cons name names)
  show ?case
    unfolding foldl_Cons Cons.IH index_at_register
    by (simp add: replicate_app_Cons_same)
qed

lemma entries_append: "entries (vs @ ws) k = entries vs k @ entries ws k"
  by (simp add: entries_def)

lemma addResource_list:
  "rm_list (addResource gv rm a) =
     rm_list rm @ (if contains (Verbs a) ''list'' then [\<lparr>api_r = a, api_gv = gv\<rparr>] else [])"
  by (simp add: addResource_def Let_def)

lemma addResource_index:
  "index_at (rm_m (addResource gv rm a)) k =
     index_at (rm_m rm) k @
     (if contains (Verbs a) ''list''
      then replicate (count_list (apiNames a gv) k) \<lparr>api_r = a, api_gv = gv\<rparr> else [])"
  by (simp add: addResource_def Let_def index_at_foldl_register)

lemma indexed_addResource: "indexed rm \<Longrightarrow> indexed (addResource gv rm a)"
  by (simp add: indexed_def addResource_index addResource_list entries_append)
     (simp add: entries_def aliases_def)

lemma indexed_foldl_addResource: "indexed rm \<Longrightarrow> indexed (foldl (addResource gv) rm as)"
  by (induction as arbitrary: rm) (simp_all add: indexed_addResource)

lemma list_foldl_addResource:
  "rm_list (foldl (addResource gv) rm as) =
     rm_list rm @ map (\<lambda>a. \<lparr>api_r = a, api_gv = gv\<rparr>) (filter (\<lambda>a. contains (Verbs a) ''list'') as)"
  by (induction as arbitrary: rm) (simp_all add: addResource_list)

lemma findAPIs_groups_indexed:
  "findAPIs_groups parse rm0 resList = Inr rm \<Longrightarrow> indexed rm0 \<Longrightarrow> indexed rm"
proof (induction resList arbitrary: rm0)
  case Nil
  then show ?case by simp
next
  case (Cons grp rest)
  then show ?case
    by (auto split: sum.splits intro: indexed_foldl_addResource)
qed

lemma findAPIs_groups_list:
  "findAPIs_groups parse rm0 resList = Inr rm \<Longrightarrow> rm_list rm = rm_list rm0 @ listed parse resList"
proof (induction resList arbitrary: rm0)
  case Nil
  then show ?case by (simp add: listed_def)
next
  case (Cons grp rest)
  then show ?case
    by (auto split: sum.splits simp: listed_def list_foldl_addResource)
qed

lemma findAPIs_index:
  assumes "findAPIs parse disc = Inr rm"
  shows "index_at (rm_m rm) k = entries (rm_list rm) k"
proof -
  from assms obtain resList where
    r: "findAPIs_groups parse \<lparr>rm_list = [], rm_m = Map.empty\<rparr> resList = Inr rm"
    by (auto simp: findAPIs_def split: sum.splits)
  have "indexed \<lparr>rm_list = [], rm_m = Map.empty\<rparr>"
    by (simp add: indexed_def entries_def index_at_def)
  with r have "indexed rm" by (rule findAPIs_groups_indexed)
  then show ?thesis by (simp add: indexed_def)
qed

lemma findAPIs_list:
  assumes "findAPIs parse (Inr resList) = Inr rm"
  shows "rm_list rm = listed parse resList"
  using assms findAPIs_groups_list [of parse "\<lparr>rm_list = [], rm_m = Map.empty\<rparr>" resList rm]
  by (simp add: findAPIs_def)

lemma findAPIs_groups_parsed:
  "findAPIs_groups parse rm0 resList = Inr rm \<Longrightarrow> grp \<in> set resList \<Longrightarrow>
     \<exists>gv. parse (GroupVersionString grp) = Inr gv"
  by (induction resList arbitrary: rm0) (auto split: sum.splits)

lemma set_entries: "set (entries vs k) = {v \<in> set vs. k \<in> set (aliases v)}"
  by (auto simp: entries_def count_list_0_iff)

lemma findAPIs_groups_total:
  "(\<forall>grp \<in> set resList. \<exists>gv. parse (GroupVersionString grp) = Inr gv) \<Longrightarrow>
     \<exists>rm. findAPIs_groups parse rm0 resList = Inr rm"
  by (induction resList arbitrary: rm0) auto

lemma findAPIs_total:
  "(\<forall>grp \<in> set resList. \<exists>gv. parse (GroupVersionString grp) = Inr gv) \<Longrightarrow>
     \<exists>rm. findAPIs parse (Inr resList) = Inr rm"
  by (simp add: findAPIs_def findAPIs_groups_total)

lemma findAPIs_answer:
  "findAPIs parse disc = Inr rm \<Longrightarrow> \<exists>resList. disc = Inr resList"
  by (cases disc) (simp_all add: findAPIs_def)

lemma listed_listable: "v \<in> set (listed parse resList) \<Longrightarrow> contains (Verbs (api_r v)) ''list''"
  by (auto simp: listed_def split: sum.splits)

lemma listed_member:
  "grp \<in> set resList \<Longrightarrow> parse (GroupVersionString grp) = Inr gv \<Longrightarrow>
   a \<in> set (APIResources grp) \<Longrightarrow> contains (Verbs a) ''list'' \<Longrightarrow>
     \<lparr>api_r = a, api_gv = gv\<rparr> \<in> set (listed parse resList)"
  by (force simp: listed_def)

lemma findAPIs_entries:
  assumes "findAPIs parse disc = Inr rm"
  shows "set (index_at (rm_m rm) k) = {v \<in> set (rm_list rm). k \<in> set (aliases v)}"
  by (simp add: findAPIs_index [OF assms] set_entries)


lemma nameForms_eq:
  "nameForms gv n = [n, n @ ''.'' @ Group gv, n @ ''.'' @ Version gv @ ''.'' @ Group gv]"
  by (simp add: nameForms_def)

text \<open>
  C7. A discovered descriptor with the \<open>list\<close> verb is registered under exactly the keys
  of its alias set: for each base name (the singular name, which is the declared one or,
  when that is empty, the lower-cased kind; the plural name; each short name) the bare
  name, \<open>name.group\<close> and \<open>name.version.group\<close>. Its step appends the resource once
  to the full list, which is the discovery answer's listable descriptors in order.
\<close>

theorem findAPIs_registers_aliases:
  assumes "findAPIs parse (Inr resList) = Inr rm"
    and "grp \<in> set resList" and "parse (GroupVersionString grp) = Inr gv"
    and "a \<in> set (APIResources grp)" and "contains (Verbs a) ''list''"
  shows "{k. \<lparr>api_r = a, api_gv = gv\<rparr> \<in> set (index_at (rm_m rm) k)} = set (apiNames a gv)
    \<and> apiNames a gv =
        concat (map (\<lambda>n. [n, n @ ''.'' @ Group gv, n @ ''.'' @ Version gv @ ''.'' @ Group gv])
          ((if SingularName a = [] then strings_ToLower (Kind a) else SingularName a)
             # Name a # ShortNames a))
    \<and> rm_list (addResource gv rm0 a) = rm_list rm0 @ [\<lparr>api_r = a, api_gv = gv\<rparr>]
    \<and> \<lparr>api_r = a, api_gv = gv\<rparr> \<in> set (rm_list rm)
    \<and> rm_list rm = listed parse resList"
proof -
  let ?v = "\<lparr>api_r = a, api_gv = gv\<rparr>"
  have l: "rm_list rm = listed parse resList"
    using assms(1) by (rule findAPIs_list)
  have v: "?v \<in> set (rm_list rm)"
    unfolding l using assms(2-5) by (rule listed_member)
  have k: "{k. ?v \<in> set (index_at (rm_m rm) k)} = set (apiNames a gv)"
    using v by (simp add: findAPIs_entries [OF assms(1)] aliases_def)
  have n: "apiNames a gv =
        concat (map (\<lambda>n. [n, n @ ''.'' @ Group gv, n @ ''.'' @ Version gv @ ''.'' @ Group gv])
          ((if SingularName a = [] then strings_ToLower (Kind a) else SingularName a)
             # Name a # ShortNames a))"
  proof -
    have "nameForms gv =
        (\<lambda>n. [n, n @ ''.'' @ Group gv, n @ ''.'' @ Version gv @ ''.'' @ Group gv])"
      by (rule ext) (simp add: nameForms_def)
    then show ?thesis
      by (simp add: apiNames_concat baseNames_def singularName_def)
  qed
  have s: "rm_list (addResource gv rm0 a) = rm_list rm0 @ [?v]"
    using assms(5) by (simp add: addResource_list)
  from k n s v l show ?thesis by blast
qed

lemma demo_parse:
  "ParseGroupVersion ''v1'' = Inr coreV1"
  "ParseGroupVersion ''apps/v1'' = Inr \<lparr>Group = ''apps'', Version = ''v1''\<rparr>"
  "ParseGroupVersion ''serving.knative.dev/v1'' = Inr \<lparr>Group = ''serving.knative.dev'', Version = ''v1''\<rparr>"
  "ParseGroupVersion ''carto.run/v1alpha1'' = Inr \<lparr>Group = ''carto.run'', Version = ''v1alpha1''\<rparr>"
  "ParseGroupVersion ''example.dev/v1'' = Inr \<lparr>Group = ''example.dev'', Version = ''v1''\<rparr>"
  by (simp_all add: ParseGroupVersion_def coreV1_def)

lemma demo_findAPIs: "\<exists>rm. findAPIs ParseGroupVersion (Inr demoDiscovery) = Inr rm"
  by (rule findAPIs_total)
     (simp add: demoDiscovery_def coreGroup_def appsGroup_def knativeGroup_def cartoGroup_def
        exampleGroup_def demo_parse)

theorem findAPIs_registers_aliases_witness:
  "\<exists>rm. findAPIs ParseGroupVersion (Inr demoDiscovery) = Inr rm
     \<and> {k. \<lparr>api_r = deploymentsRes, api_gv = \<lparr>Group = ''apps'', Version = ''v1''\<rparr>\<rparr>
            \<in> set (index_at (rm_m rm) k)} =
        {''deployment'', ''deployment.apps'', ''deployment.v1.apps'',
         ''deployments'', ''deployments.apps'', ''deployments.v1.apps'',
         ''deploy'', ''deploy.apps'', ''deploy.v1.apps''}"
proof -
  from demo_findAPIs obtain rm where rm: "findAPIs ParseGroupVersion (Inr demoDiscovery) = Inr rm" ..
  have g: "appsGroup \<in> set demoDiscovery" by (simp add: demoDiscovery_def)
  have p: "ParseGroupVersion (GroupVersionString appsGroup) = Inr \<lparr>Group = ''apps'', Version = ''v1''\<rparr>"
    by (simp add: appsGroup_def demo_parse)
  have a: "deploymentsRes \<in> set (APIResources appsGroup)" by (simp add: appsGroup_def)
  have c: "contains (Verbs deploymentsRes) ''list''" by (simp add: deploymentsRes_def descriptor_def)
  have "apiNames deploymentsRes \<lparr>Group = ''apps'', Version = ''v1''\<rparr> = 
        [''deployment'', ''deployment.apps'', ''deployment.v1.apps'',
         ''deployments'', ''deployments.apps'', ''deployments.v1.apps'',
         ''deploy'', ''deploy.apps'', ''deploy.v1.apps'']"
    by (simp add: apiNames_def baseNames_def nameForms_def singularName_def deploymentsRes_def
        descriptor_def strings_ToLower_def toLower_byte_def)
  with findAPIs_registers_aliases [OF rm g p a c] rm show ?thesis by auto
qed

text \<open>
  C8. In a catalog built by \<open>findAPIs\<close> each key of the index, and each lookup, gives
  only resources that have the \<open>list\<close> verb, and so does the full list; a resource
  without the verb stands neither under a key nor in the list.
\<close>

theorem findAPIs_only_listable:
  assumes "findAPIs parse disc = Inr rm"
  shows "(\<forall>k. \<forall>v \<in> set (index_at (rm_m rm) k). contains (Verbs (api_r v)) ''list'')
    \<and> (\<forall>s. \<forall>v \<in> set (lookup rm s). contains (Verbs (api_r v)) ''list'')
    \<and> (\<forall>v \<in> set (resources rm). contains (Verbs (api_r v)) ''list'')
    \<and> (\<forall>v. \<not> contains (Verbs (api_r v)) ''list'' \<longrightarrow>
          v \<notin> set (resources rm) \<and> (\<forall>k. v \<notin> set (index_at (rm_m rm) k)))"
proof -
  from assms obtain resList where "disc = Inr resList"
    using findAPIs_answer by blast
  with assms have "rm_list rm = listed parse resList"
    by (simp add: findAPIs_list)
  then have l: "\<And>v. v \<in> set (rm_list rm) \<Longrightarrow> contains (Verbs (api_r v)) ''list''"
    by (simp add: listed_listable)
  have i: "\<And>k v. v \<in> set (index_at (rm_m rm) k) \<Longrightarrow> v \<in> set (rm_list rm)"
    by (simp add: findAPIs_entries [OF assms])
  from l i show ?thesis
    unfolding lookup_def resources_def by blast
qed

theorem findAPIs_only_listable_witness:
  "\<exists>rm. findAPIs ParseGroupVersion (Inr demoDiscovery) = Inr rm
     \<and> \<lparr>api_r = bindingsRes, api_gv = coreV1\<rparr> \<notin> set (resources rm)
     \<and> \<lparr>api_r = bindingsRes, api_gv = coreV1\<rparr> \<notin> set (index_at (rm_m rm) ''bindings'')
     \<and> \<lparr>api_r = bindingsRes, api_gv = coreV1\<rparr> \<notin> set (lookup rm ''Binding'')"
proof -
  from demo_findAPIs obtain rm where rm: "findAPIs ParseGroupVersion (Inr demoDiscovery) = Inr rm" ..
  have "\<not> contains (Verbs (api_r \<lparr>api_r = bindingsRes, api_gv = coreV1\<rparr>)) ''list''"
    by (simp add: bindingsRes_def descriptor_def)
  with findAPIs_only_listable [OF rm] rm show ?thesis by blast
qed

text \<open>
  C5, as amended. The index keeps the aliases as discovery spelled them and only the
  looked-up string is lower-cased. So for a resource of the catalog and an alias of it
  that is in lower case, each string that lower-cases to the alias (the alias itself and
  its case variants) finds the resource.
\<close>

theorem lookup_finds_lower_case_alias:
  assumes "findAPIs parse disc = Inr rm"
    and "v \<in> set (resources rm)"
    and "alias \<in> set (apiNames (api_r v) (api_gv v))"
    and "strings_ToLower s = alias"
  shows "v \<in> set (lookup rm s)"
  using assms(2-4) by (simp add: lookup_def resources_def findAPIs_entries [OF assms(1)] aliases_def)

theorem lookup_finds_lower_case_alias_witness:
  "\<exists>rm. findAPIs ParseGroupVersion (Inr demoDiscovery) = Inr rm
     \<and> coreService \<in> set (lookup rm ''Service.V1.'')
     \<and> coreService \<in> set (lookup rm ''SVC'')"
proof -
  from demo_findAPIs obtain rm where rm: "findAPIs ParseGroupVersion (Inr demoDiscovery) = Inr rm" ..
  have "rm_list rm = listed ParseGroupVersion demoDiscovery"
    using rm by (rule findAPIs_list)
  then have v: "coreService \<in> set (resources rm)"
    by (simp add: resources_def listed_def demoDiscovery_def coreGroup_def demo_parse coreService_def
        servicesRes_def descriptor_def)
  have n: "apiNames (api_r coreService) (api_gv coreService) =
     [''service'', ''service.'', ''service.v1.'', ''services'', ''services.'', ''services.v1.'',
      ''svc'', ''svc.'', ''svc.v1.'']"
    by (simp add: apiNames_def baseNames_def nameForms_def singularName_def coreService_def
        servicesRes_def descriptor_def coreV1_def)
  have a1: "''service.v1.'' \<in> set (apiNames (api_r coreService) (api_gv coreService))"
    and a2: "''svc'' \<in> set (apiNames (api_r coreService) (api_gv coreService))"
    by (simp_all add: n)
  have t1: "strings_ToLower ''Service.V1.'' = ''service.v1.''"
    and t2: "strings_ToLower ''SVC'' = ''svc''"
    by (simp_all add: strings_ToLower_def toLower_byte_def)
  from lookup_finds_lower_case_alias [OF rm v a1 t1]
       lookup_finds_lower_case_alias [OF rm v a2 t2] rm
  show ?thesis by blast
qed

text \<open>
  The claim as it was stated fails for an alias with an upper-case letter: the resource
  \<open>Widgets\<close> is stored under the key \<open>Widgets\<close>, and the lookup of that very alias
  reads the key \<open>widgets\<close>.
\<close>

lemma widget_findAPIs: "findAPIs ParseGroupVersion (Inr widgetDiscovery) = Inr widgetCatalog"
  unfolding widgetCatalog_def
  by (simp add: findAPIs_def widgetDiscovery_def ParseGroupVersion_def)

theorem lookup_upper_case_alias_counterexample:
  "findAPIs ParseGroupVersion (Inr widgetDiscovery) = Inr widgetCatalog
   \<and> widgetResource \<in> set (resources widgetCatalog)
   \<and> ''Widgets'' \<in> set (apiNames (api_r widgetResource) (api_gv widgetResource))
   \<and> widgetResource \<notin> set (lookup widgetCatalog ''Widgets'')"
proof -
  have l: "rm_list widgetCatalog = [widgetResource]"
    using findAPIs_list [OF widget_findAPIs]
    by (simp add: listed_def widgetDiscovery_def ParseGroupVersion_def widgetResource_def
        widgetsRes_def descriptor_def)
  have n: "apiNames widgetsRes \<lparr>Group = ''example.com'', Version = ''v1''\<rparr> =
     [''widget'', ''widget.example.com'', ''widget.v1.example.com'',
      ''Widgets'', ''Widgets.example.com'', ''Widgets.v1.example.com'']"
    by (simp add: apiNames_def baseNames_def nameForms_def singularName_def widgetsRes_def
        descriptor_def)
  have "lookup widgetCatalog ''Widgets'' = []"
    unfolding lookup_def findAPIs_index [OF widget_findAPIs] l
    by (simp add: entries_def aliases_def widgetResource_def n strings_ToLower_def toLower_byte_def)
  then show ?thesis
    using widget_findAPIs l n by (simp add: widgetResource_def resources_def)
qed

section \<open>Aliases of the core group\<close>







lemma demo_aliases:
  "aliases knativeService =
     [''service'', ''service.serving.knative.dev'', ''service.v1.serving.knative.dev'',
      ''services'', ''services.serving.knative.dev'', ''services.v1.serving.knative.dev'',
      ''ksvc'', ''ksvc.serving.knative.dev'', ''ksvc.v1.serving.knative.dev'']"
  "aliases coreService =
     [''service'', ''service.'', ''service.v1.'', ''services'', ''services.'', ''services.v1.'',
      ''svc'', ''svc.'', ''svc.v1.'']"
  "aliases coreNamespace =
     [''namespace'', ''namespace.'', ''namespace.v1.'', ''namespaces'', ''namespaces.'',
      ''namespaces.v1.'', ''ns'', ''ns.'', ''ns.v1.'']"
  "aliases appsDeployment =
     [''deployment'', ''deployment.apps'', ''deployment.v1.apps'',
      ''deployments'', ''deployments.apps'', ''deployments.v1.apps'',
      ''deploy'', ''deploy.apps'', ''deploy.v1.apps'']"
  "aliases cartoWorkload =
     [''workload'', ''workload.carto.run'', ''workload.v1alpha1.carto.run'',
      ''workloads'', ''workloads.carto.run'', ''workloads.v1alpha1.carto.run'']"
  "aliases exampleWorkload =
     [''workload'', ''workload.example.dev'', ''workload.v1.example.dev'',
      ''workloads'', ''workloads.example.dev'', ''workloads.v1.example.dev'']"
  by (simp_all add: aliases_def apiNames_def baseNames_def nameForms_def singularName_def
      knativeService_def coreService_def coreNamespace_def appsDeployment_def cartoWorkload_def
      exampleWorkload_def kservicesRes_def servicesRes_def namespacesRes_def deploymentsRes_def
      workloadsRes_def descriptor_def coreV1_def strings_ToLower_def toLower_byte_def)




section \<open>The resolver without an override\<close>





section \<open>The override table\<close>








section \<open>Pagination\<close>

lemma loop_last_page:
  "List client (GroupVersionResourceOf api) ns \<lparr>Limit = 250, Continue = next\<rparr> = Inr p \<Longrightarrow>
   GetContinue p = [] \<Longrightarrow>
     queryAPI_loop client api ns out next = Some (out @ Items p, None)"
  by (subst queryAPI_loop.simps) simp

lemma loop_next_page:
  "List client (GroupVersionResourceOf api) ns \<lparr>Limit = 250, Continue = next\<rparr> = Inr p \<Longrightarrow>
   GetContinue p \<noteq> [] \<Longrightarrow>
     queryAPI_loop client api ns out next =
       queryAPI_loop client api ns (out @ Items p) (GetContinue p)"
  by (subst queryAPI_loop.simps) simp

lemma loop_page_fails:
  "List client (GroupVersionResourceOf api) ns \<lparr>Limit = 250, Continue = next\<rparr> = Inl err \<Longrightarrow>
     queryAPI_loop client api ns out next =
       Some ([], Some (ListingFailed (GroupVersionResourceOf api) err))"
  by (subst queryAPI_loop.simps) simp

lemma loop_pages:
  "pages_from client (GroupVersionResourceOf api) ns cursor ps \<Longrightarrow>
     queryAPI_loop client api ns out cursor = Some (out @ concat (map Items ps), None)"
proof (induction client "GroupVersionResourceOf api" ns cursor ps arbitrary: out
    rule: pages_from.induct)
  case (1 client ns cursor)
  then show ?case by simp
next
  case (2 client ns cursor p)
  then show ?case by (simp add: loop_last_page)
next
  case (3 client ns cursor p q ps)
  then show ?case by (simp add: loop_next_page)
qed

lemma loop_fails:
  "fails_after client (GroupVersionResourceOf api) ns cursor ps err \<Longrightarrow>
     queryAPI_loop client api ns out cursor =
       Some ([], Some (ListingFailed (GroupVersionResourceOf api) err))"
proof (induction ps arbitrary: out cursor)
  case Nil
  then show ?case by (simp add: loop_page_fails)
next
  case (Cons p ps)
  then show ?case by (simp add: loop_next_page)
qed

lemma loop_returns:
  assumes returns: "queryAPI_loop client api ns out cursor = Some r"
  shows "(\<exists>ps. pages_from client (GroupVersionResourceOf api) ns cursor ps \<and>
               r = (out @ concat (map Items ps), None))
       \<or> (\<exists>ps err. fails_after client (GroupVersionResourceOf api) ns cursor ps err \<and>
               r = ([], Some (ListingFailed (GroupVersionResourceOf api) err)))"
proof (induct rule: queryAPI_loop.raw_induct [OF _ returns])
  case (1 loop client api ns out cursor r)
  let ?g = "GroupVersionResourceOf api"
  show ?case
  proof (cases "List client ?g ns \<lparr>Limit = 250, Continue = cursor\<rparr>")
    case (Inl err)
    with 1(2) have "r = ([], Some (ListingFailed ?g err))" by simp
    moreover from Inl have "fails_after client ?g ns cursor [] err" by simp
    ultimately show ?thesis by blast
  next
    case (Inr p)
    show ?thesis
    proof (cases "GetContinue p = []")
      case True
      with Inr 1(2) have "r = (out @ concat (map Items [p]), None)" by simp
      moreover from Inr True have "pages_from client ?g ns cursor [p]" by simp
      ultimately show ?thesis by blast
    next
      case False
      with Inr 1(2) have "loop client api ns (out @ Items p) (GetContinue p) = Some r"
        by simp
      from 1(1) [OF this] show ?thesis
      proof (elim disjE exE conjE)
        fix ps
        assume a: "pages_from client ?g ns (GetContinue p) ps"
          and b: "r = ((out @ Items p) @ concat (map Items ps), None)"
        from a obtain q qs where "ps = q # qs" by (cases ps) auto
        with a Inr False have "pages_from client ?g ns cursor (p # ps)" by simp
        moreover from b have "r = (out @ concat (map Items (p # ps)), None)" by simp
        ultimately show ?thesis by blast
      next
        fix ps err
        assume a: "fails_after client ?g ns (GetContinue p) ps err"
          and b: "r = ([], Some (ListingFailed ?g err))"
        from a Inr False have "fails_after client ?g ns cursor (p # ps) err" by simp
        with b show ?thesis by blast
      qed
    qed
  qed
qed

text \<open>
  C4. \<open>queryAPI\<close> asks for pages with the limit 250, first with the empty cursor and
  then with the cursor of the page before; it stops at the first page with the empty
  cursor and returns the items of the pages in the order of the requests (so three pages
  with the cursors \<open>C1\<close>, \<open>C2\<close> and the empty one give the three pages one after the
  other). When a request fails it returns no item of the pages before, and the error
  that wraps the resource and the transport error. It returns in no other way.
\<close>

theorem queryAPI_pagination:
  "(\<forall>ps. pages_from client (GroupVersionResourceOf api) ns [] ps \<longrightarrow>
        queryAPI client api ns = Some (concat (map Items ps), None))
   \<and> (\<forall>ps err. fails_after client (GroupVersionResourceOf api) ns [] ps err \<longrightarrow>
        queryAPI client api ns =
          Some ([], Some (ListingFailed (GroupVersionResourceOf api) err)))
   \<and> (\<forall>r. queryAPI client api ns = Some r \<longrightarrow>
        (\<exists>ps. pages_from client (GroupVersionResourceOf api) ns [] ps \<and>
              r = (concat (map Items ps), None))
      \<or> (\<exists>ps err. fails_after client (GroupVersionResourceOf api) ns [] ps err \<and>
              r = ([], Some (ListingFailed (GroupVersionResourceOf api) err))))"
proof (intro conjI allI impI)
  fix ps
  assume "pages_from client (GroupVersionResourceOf api) ns [] ps"
  from loop_pages [OF this, of "[]"]
  show "queryAPI client api ns = Some (concat (map Items ps), None)"
    by (simp add: queryAPI_def)
next
  fix ps err
  assume "fails_after client (GroupVersionResourceOf api) ns [] ps err"
  from loop_fails [OF this, of "[]"]
  show "queryAPI client api ns = Some ([], Some (ListingFailed (GroupVersionResourceOf api) err))"
    by (simp add: queryAPI_def)
next
  fix r
  assume "queryAPI client api ns = Some r"
  then have "queryAPI_loop client api ns [] [] = Some r"
    by (simp add: queryAPI_def)
  from loop_returns [OF this]
  show "(\<exists>ps. pages_from client (GroupVersionResourceOf api) ns [] ps \<and>
              r = (concat (map Items ps), None))
      \<or> (\<exists>ps err. fails_after client (GroupVersionResourceOf api) ns [] ps err \<and>
              r = ([], Some (ListingFailed (GroupVersionResourceOf api) err)))"
    by simp
qed

lemma workload_pages:
  "pages_from (cluster up deps) (GroupVersionResourceOf cartoWorkload) ''ns1'' []
     [\<lparr>Items = [petc, objA], GetContinue = ''C1''\<rparr>,
      \<lparr>Items = [objB], GetContinue = ''C2''\<rparr>,
      \<lparr>Items = [objC, objD], GetContinue = []\<rparr>]"
  by (simp add: cluster_def serve_def workloadPages_def page_def GroupVersionResourceOf_def
      cartoWorkload_def workloadsRes_def descriptor_def)

theorem queryAPI_pagination_witness:
  "queryAPI (cluster True []) cartoWorkload ''ns1'' = Some ([petc, objA, objB, objC, objD], None)
   \<and> queryAPI expiringServer cartoWorkload ''ns1'' =
       Some ([], Some (ListingFailed (GroupVersionResourceOf cartoWorkload)
                         (TransportError ''continue token expired'')))"
proof -
  have "fails_after expiringServer (GroupVersionResourceOf cartoWorkload) ''ns1'' []
      [\<lparr>Items = [objA, objB], GetContinue = ''C1''\<rparr>] (TransportError ''continue token expired'')"
    by (simp add: expiringServer_def serve_def page_def)
  with queryAPI_pagination [of "expiringServer" cartoWorkload "''ns1''"]
  have "queryAPI expiringServer cartoWorkload ''ns1'' =
       Some ([], Some (ListingFailed (GroupVersionResourceOf cartoWorkload)
                         (TransportError ''continue token expired'')))"
    by blast
  moreover from queryAPI_pagination [of "cluster True []" cartoWorkload "''ns1''"]
    workload_pages [of True "[]"]
  have "queryAPI (cluster True []) cartoWorkload ''ns1'' =
      Some (concat (map Items [\<lparr>Items = [petc, objA], GetContinue = ''C1''\<rparr>,
      \<lparr>Items = [objB], GetContinue = ''C2''\<rparr>,
      \<lparr>Items = [objC, objD], GetContinue = []\<rparr>]), None)"
    by blast
  ultimately show ?thesis by simp
qed

section \<open>The goroutines of the fleet fetcher\<close>

lemma goroutine_stuck: "foldl (goroutine client ns) None as = None"
  by (induction as) (simp_all add: goroutine_def)






section \<open>The fleet fetcher fails as one unit\<close>




lemma petc_dispatched: "dispatched petcApis = [coreService, appsDeployment, cartoWorkload]"
  by (simp add: dispatched_def petcApis_def coreService_def coreNamespace_def appsDeployment_def
      cartoWorkload_def servicesRes_def namespacesRes_def deploymentsRes_def workloadsRes_def
      descriptor_def)


lemma cluster_queries:
  "queryAPI (cluster up deps) cartoWorkload ''ns1'' = Some ([petc, objA, objB, objC, objD], None)"
  "queryAPI (cluster up deps) appsDeployment ''ns1'' = Some ([petcDeploy deps], None)"
  "queryAPI (cluster True deps) coreService ''ns1'' = Some ([], None)"
  "queryAPI (cluster False deps) coreService ''ns1'' =
     Some ([], Some (ListingFailed (GroupVersionResourceOf coreService)
                        (TransportError ''connection refused'')))"
proof -
  show "queryAPI (cluster up deps) cartoWorkload ''ns1'' = Some ([petc, objA, objB, objC, objD], None)"
    using loop_pages [OF workload_pages, of up deps "[]"] by (simp add: queryAPI_def)
  have "pages_from (cluster up deps) (GroupVersionResourceOf appsDeployment) ''ns1'' []
     [\<lparr>Items = [petcDeploy deps], GetContinue = []\<rparr>]"
    by (simp add: cluster_def serve_def page_def GroupVersionResourceOf_def
      appsDeployment_def deploymentsRes_def descriptor_def)
  from loop_pages [OF this, of "[]"]
  show "queryAPI (cluster up deps) appsDeployment ''ns1'' = Some ([petcDeploy deps], None)"
    by (simp add: queryAPI_def)
  have "pages_from (cluster True deps) (GroupVersionResourceOf coreService) ''ns1'' []
     [\<lparr>Items = [], GetContinue = []\<rparr>]"
    by (simp add: cluster_def serve_def page_def GroupVersionResourceOf_def
      coreService_def servicesRes_def descriptor_def)
  from loop_pages [OF this, of "[]"]
  show "queryAPI (cluster True deps) coreService ''ns1'' = Some ([], None)"
    by (simp add: queryAPI_def)
  have "fails_after (cluster False deps) (GroupVersionResourceOf coreService) ''ns1'' []
     [] (TransportError ''connection refused'')"
    by (simp add: cluster_def serve_def page_def GroupVersionResourceOf_def
      coreService_def servicesRes_def descriptor_def)
  from loop_fails [OF this, of "[]"]
  show "queryAPI (cluster False deps) coreService ''ns1'' =
     Some ([], Some (ListingFailed (GroupVersionResourceOf coreService)
                        (TransportError ''connection refused'')))"
    by (simp add: queryAPI_def)
qed

lemma cluster_fleet:
  "getAllResources (cluster True deps) petcApis ''ns1'' [2, 0, 1] =
     Some ([petc, objA, objB, objC, objD, petcDeploy deps], None)"
  "getAllResources (cluster False deps) petcApis ''ns1'' [2, 0, 1] =
     Some ([petc, objA, objB, objC, objD, petcDeploy deps],
           Some (ListingFailed (GroupVersionResourceOf coreService)
                   (TransportError ''connection refused'')))"
  by (simp_all add: getAllResources_def petc_dispatched goroutine_def cluster_queries)

lemma petc_findAPIs: "\<exists>rm. findAPIs ParseGroupVersion (Inr petcDiscovery) = Inr rm"
  by (rule findAPIs_total)
     (simp add: petcDiscovery_def coreGroup_def appsGroup_def cartoGroup_def demo_parse)

lemma petc_catalog:
  assumes "findAPIs ParseGroupVersion (Inr petcDiscovery) = Inr rm"
  shows "resources rm = petcApis"
    and "resolveKind ''workload'' rm = Inr cartoWorkload"
proof -
  show l: "resources rm = petcApis"
    unfolding resources_def findAPIs_list [OF assms]
    by (simp add: listed_def petcDiscovery_def coreGroup_def appsGroup_def
      cartoGroup_def demo_parse petcApis_def coreService_def
      coreNamespace_def appsDeployment_def cartoWorkload_def
      servicesRes_def namespacesRes_def deploymentsRes_def workloadsRes_def
      bindingsRes_def descriptor_def coreV1_def)
  have t: "strings_ToLower ''workload'' = ''workload''"
    by (simp add: strings_ToLower_def toLower_byte_def)
  have "lookup rm ''workload'' = [cartoWorkload]"
    unfolding lookup_def findAPIs_index [OF assms] l [unfolded resources_def] petcApis_def
    by (simp add: entries_def demo_aliases t)
  then show "resolveKind ''workload'' rm = Inr cartoWorkload"
    by (simp add: resolveKind_def overrideType_def t)
qed


section \<open>The empty answer of a run\<close>

lemma run_error_prints_nothing:
  "run parse disc dyn sched kind name ns = Some (out, Some err) \<Longrightarrow> out = []"
  by (auto simp: run_def Let_def split: sum.splits option.splits prod.splits if_splits)

text \<open>
  C9. When discovery, the resolver, the \<open>Get\<close> of the root object and the fleet fetch
  have succeeded: if the children set of the root's UID in the directory is empty, \<open>run\<close>
  prints the one line \<open>No resources are owned by this object through
  ownerReferences.\<close> (which begins, in lower case, with \<open>no resources are owned by this
  object\<close>) and returns no error; if a fetched object names the root as owner, the
  children set is not empty and the directory is printed instead. One of the two is the
  case, and neither returns an error, while a run that returns an error prints nothing.
\<close>

theorem run_no_owned_resources:
  assumes "findAPIs parse disc = Inr apis"
    and "resolveKind kind apis = Inr api"
    and "Get dyn (GroupVersionResourceOf api) (if Namespaced (api_r api) then ns else []) name
           = Inr obj"
    and "getAllResources dyn (resources apis) ns sched = Some (apiObjects, None)"
  shows "(childrenOf (newObjectDirectory apiObjects) (GetUID obj) = {} \<longrightarrow>
            run parse disc dyn sched kind name ns =
              Some ([Line ''No resources are owned by this object through ownerReferences.''],
                    None))
    \<and> ((\<exists>dep \<in> set apiObjects. GetUID obj \<in> ref_UID ` set (GetOwnerReferences dep)) \<longrightarrow>
            childrenOf (newObjectDirectory apiObjects) (GetUID obj) \<noteq> {} \<and>
            run parse disc dyn sched kind name ns =
              Some ([Dump (newObjectDirectory apiObjects)], None))
    \<and> (childrenOf (newObjectDirectory apiObjects) (GetUID obj) = {} \<or>
         (\<exists>dep \<in> set apiObjects. GetUID obj \<in> ref_UID ` set (GetOwnerReferences dep)))
    \<and> (\<forall>out err. run parse disc dyn sched kind name ns = Some (out, err) \<longrightarrow> err = None)
    \<and> take 37 (strings_ToLower ''No resources are owned by this object through ownerReferences.'')
         = ''no resources are owned by this object''"
proof -
  let ?objs = "newObjectDirectory apiObjects"
  have r: "run parse disc dyn sched kind name ns =
      (if childrenOf ?objs (GetUID obj) = {}
       then Some ([Line ''No resources are owned by this object through ownerReferences.''], None)
       else Some ([Dump ?objs], None))"
    using assms by (simp add: run_def Let_def)
  have c: "childrenOf ?objs (GetUID obj) \<noteq> {} \<longleftrightarrow>
      (\<exists>dep \<in> set apiObjects. GetUID obj \<in> ref_UID ` set (GetOwnerReferences dep))"
    unfolding childrenOf_newObjectDirectory by blast
  have m: "take 37 (strings_ToLower ''No resources are owned by this object through ownerReferences.'')
         = ''no resources are owned by this object''"
    by (simp add: strings_ToLower_def toLower_byte_def)
  have e: "\<forall>out err. run parse disc dyn sched kind name ns = Some (out, err) \<longrightarrow> err = None"
    unfolding r by simp
  from c have d: "childrenOf ?objs (GetUID obj) = {} \<or>
         (\<exists>dep \<in> set apiObjects. GetUID obj \<in> ref_UID ` set (GetOwnerReferences dep))"
    by blast
  from r have a: "childrenOf ?objs (GetUID obj) = {} \<longrightarrow>
            run parse disc dyn sched kind name ns =
              Some ([Line ''No resources are owned by this object through ownerReferences.''],
                    None)"
    by simp
  from r c have b: "(\<exists>dep \<in> set apiObjects. GetUID obj \<in> ref_UID ` set (GetOwnerReferences dep)) \<longrightarrow>
            childrenOf ?objs (GetUID obj) \<noteq> {} \<and>
            run parse disc dyn sched kind name ns = Some ([Dump ?objs], None)"
    by auto
  from a b d e m show ?thesis by (intro conjI)
qed

lemma petc_get:
  "Get (cluster up deps) (GroupVersionResourceOf cartoWorkload)
     (if Namespaced (api_r cartoWorkload) then ''ns1'' else []) ''petc'' = Inr petc"
  by (simp add: cluster_def GroupVersionResourceOf_def cartoWorkload_def workloadsRes_def
      descriptor_def)

theorem run_no_owned_resources_witness:
  "run ParseGroupVersion (Inr petcDiscovery) (cluster True []) [2, 0, 1]
      ''workload'' ''petc'' ''ns1'' =
     Some ([Line ''No resources are owned by this object through ownerReferences.''], None)
   \<and> run ParseGroupVersion (Inr petcDiscovery) (cluster True [''uid-petc'']) [2, 0, 1]
      ''workload'' ''petc'' ''ns1'' =
     Some ([Dump (newObjectDirectory
                    [petc, objA, objB, objC, objD, petcDeploy [''uid-petc'']])], None)
   \<and> childrenOf (newObjectDirectory [petc, objA, objB, objC, objD, petcDeploy [''uid-petc'']])
        ''uid-petc'' = {''uid-deploy''}"
proof -
  from petc_findAPIs obtain rm where rm: "findAPIs ParseGroupVersion (Inr petcDiscovery) = Inr rm" ..
  note c = petc_catalog [OF rm]
  have f: "\<And>deps. getAllResources (cluster True deps) (resources rm) ''ns1'' [2, 0, 1] =
     Some ([petc, objA, objB, objC, objD, petcDeploy deps], None)"
    by (simp only: c cluster_fleet)
  have u: "GetUID petc = ''uid-petc''" by (simp add: petc_def ownedBy_def)
  have none: "childrenOf (newObjectDirectory [petc, objA, objB, objC, objD, petcDeploy []])
        (GetUID petc) = {}"
    unfolding childrenOf_newObjectDirectory
    by (auto simp: petc_def objA_def objB_def objC_def objD_def petcDeploy_def ownedBy_def)
  have some: "\<exists>dep \<in> set [petc, objA, objB, objC, objD, petcDeploy [''uid-petc'']].
        GetUID petc \<in> ref_UID ` set (GetOwnerReferences dep)"
    by (simp add: petc_def petcDeploy_def ownedBy_def)
  have kids: "childrenOf (newObjectDirectory [petc, objA, objB, objC, objD, petcDeploy [''uid-petc'']])
        ''uid-petc'' = {''uid-deploy''}"
    by (auto simp: newObjectDirectory_def addObject_def addOwner_def childrenOf_def
        petc_def objA_def objB_def objC_def objD_def petcDeploy_def ownedBy_def)
  from run_no_owned_resources [OF rm c(2) petc_get f, of "[]"] none
  have one: "run ParseGroupVersion (Inr petcDiscovery) (cluster True []) [2, 0, 1]
      ''workload'' ''petc'' ''ns1'' =
     Some ([Line ''No resources are owned by this object through ownerReferences.''], None)"
    by blast
  from run_no_owned_resources [OF rm c(2) petc_get f, of "[''uid-petc'']"] some
  have two: "run ParseGroupVersion (Inr petcDiscovery) (cluster True [''uid-petc'']) [2, 0, 1]
      ''workload'' ''petc'' ''ns1'' =
     Some ([Dump (newObjectDirectory
                    [petc, objA, objB, objC, objD, petcDeploy [''uid-petc'']])], None)"
    by blast
  from one two kids show ?thesis by simp
qed

end
